theory Spec2Isabelle
  imports Main "HOL-Library.Char_ord" "HOL-Library.List_Lexorder" "HOL-Library.AList"
    "HOL-Library.Multiset"
begin

section \<open>Data structures of \<^verbatim>\<open>flash/downstream/tasks.py\<close>\<close>

text \<open>
  \<^verbatim>\<open>PackageSelection.source\<close> is one of the three strings
  \<^verbatim>\<open>"existing" | "new" | "upgrade"\<close>.
\<close>

datatype provenance = Existing | New | Upgrade

record PackageSelection =
  name :: string
  version :: string
  source :: provenance

text \<open>
  The five conflict messages that \<^verbatim>\<open>dfs\<close> builds with f-strings, and the one of
  \<^verbatim>\<open>task1_check_single\<close>, each with the values it interpolates:
  \<^item> \<open>TooManyPackages cap\<close>: the plan holds more than \<^verbatim>\<open>MAX_PACKAGES\<close> packages;
  \<^item> \<open>QueueTooLong cap\<close>: the queue is longer than \<^verbatim>\<open>MAX_QUEUE\<close>;
  \<^item> \<open>NoVersions n\<close>: the graph has no version of package \<open>n\<close>;
  \<^item> \<open>NoMatch n s\<close>: no version of \<open>n\<close> satisfies the specifier printed as \<open>s\<close>;
  \<^item> \<open>AllCandidatesFail n\<close>: every candidate version of \<open>n\<close> failed downstream;
  \<^item> \<open>InstalledMismatch k v s\<close>: the installed version \<open>v\<close> of \<open>k\<close> does not
    satisfy the requirement \<open>s\<close>.
\<close>

datatype conflict =
    TooManyPackages nat
  | QueueTooLong nat
  | NoVersions string
  | NoMatch string string
  | AllCandidatesFail string
  | InstalledMismatch string string string

record ResolutionResult =
  ok :: bool
  plan :: "(string \<times> PackageSelection) list"
  conflicts :: "conflict list"

text \<open>
  A Python \<^verbatim>\<open>dict\<close> is an association list in insertion order with distinct keys:
  \<^const>\<open>AList.update\<close> replaces the value of a present key in place and appends an absent
  one, as \<^verbatim>\<open>d[k] = v\<close> does; \<^const>\<open>map_of\<close> reads a key; \<^const>\<open>length\<close> is
  \<^verbatim>\<open>len(d)\<close>.
\<close>

type_synonym 'a dict = "(string \<times> 'a) list"

definition MAX_QUEUE :: nat where
  "MAX_QUEUE = 2000"

definition MAX_PACKAGES :: nat where
  "MAX_PACKAGES = 800"

section \<open>The \<^verbatim>\<open>packaging\<close> library and the graph client\<close>

text \<open>
  The exceptions that the \<^verbatim>\<open>packaging\<close> library can raise into the module
  (\<open>TypeError\<close>: a version that is \<^verbatim>\<open>None\<close> where a string is needed).
\<close>

datatype exn = InvalidVersion | InvalidSpecifier | InvalidRequirement | TypeError

text \<open>
  The third-party \<^verbatim>\<open>packaging\<close> library is not part of the repository, so the
  module is modelled over its operations:
  \<^item> \<open>Version v\<close>: the parsed version, \<open>None\<close> where \<^verbatim>\<open>Version(v)\<close> raises
    \<^verbatim>\<open>InvalidVersion\<close>; parsed versions are linearly ordered;
  \<^item> \<open>SpecifierSet s\<close>: the parsed specifier set, \<open>None\<close> where the constructor raises
    \<^verbatim>\<open>InvalidSpecifier\<close>;
  \<^item> \<open>spec_len\<close> and \<open>spec_str\<close>: \<^verbatim>\<open>len(spec)\<close> (which decides the truth value of
    \<^verbatim>\<open>spec\<close>) and \<^verbatim>\<open>str(spec)\<close>;
  \<^item> \<open>contains spec v\<close>: \<^verbatim>\<open>spec.contains(v, prereleases=True)\<close>, \<open>None\<close> where the
    call raises \<^verbatim>\<open>InvalidVersion\<close>;
  \<^item> \<open>Requirement line\<close>: the pair \<^verbatim>\<open>(r.name, r.specifier)\<close> of
    \<^verbatim>\<open>r = Requirement(line)\<close>, \<open>None\<close> where it raises \<^verbatim>\<open>InvalidRequirement\<close>.
\<close>

record ('v, 's) packaging =
  Version :: "string \<Rightarrow> 'v option"
  SpecifierSet :: "string \<Rightarrow> 's option"
  spec_len :: "'s \<Rightarrow> nat"
  spec_str :: "'s \<Rightarrow> string"
  contains :: "'s \<Rightarrow> string \<Rightarrow> bool option"
  Requirement :: "string \<Rightarrow> (string \<times> 's) option"

text \<open>
  \<^verbatim>\<open>KGClient\<close>: the records the two Cypher queries return. \<open>versions_of n\<close> are the
  \<^verbatim>\<open>ver\<close> values for package \<open>n\<close> in the order Neo4j returns them, \<open>requires_of n v\<close>
  the \<^verbatim>\<open>(dep, spec or "", marker or "")\<close> triples for \<^verbatim>\<open>n@v\<close>. A query that fails
  after its retries raises out of the whole call and is not modelled.
\<close>

record KGClient =
  versions_of :: "string \<Rightarrow> string list"
  requires_of :: "string \<Rightarrow> string \<Rightarrow> (string \<times> string \<times> string) list"

section \<open>Version ordering\<close>

text \<open>
  The sort key of \<^verbatim>\<open>sort_versions\<close> is the tuple \<^verbatim>\<open>(0, Version(v))\<close>, or
  \<^verbatim>\<open>(1, v)\<close> when \<^verbatim>\<open>Version(v)\<close> raises \<^verbatim>\<open>InvalidVersion\<close>. Python compares tuples
  by their first components and, where these are equal, by their second: two parsed
  versions by the order of \<^verbatim>\<open>Version\<close>, two raw strings by string comparison.
\<close>

datatype 'v vkey = WellFormed 'v | Malformed string

instantiation vkey :: (linorder) linorder
begin

fun less_eq_vkey :: "'a vkey \<Rightarrow> 'a vkey \<Rightarrow> bool" where
  "less_eq_vkey (WellFormed a) (WellFormed b) = (a \<le> b)"
| "less_eq_vkey (WellFormed a) (Malformed t) = True"
| "less_eq_vkey (Malformed s) (WellFormed b) = False"
| "less_eq_vkey (Malformed s) (Malformed t) = (s \<le> t)"

fun less_vkey :: "'a vkey \<Rightarrow> 'a vkey \<Rightarrow> bool" where
  "less_vkey (WellFormed a) (WellFormed b) = (a < b)"
| "less_vkey (WellFormed a) (Malformed t) = True"
| "less_vkey (Malformed s) (WellFormed b) = False"
| "less_vkey (Malformed s) (Malformed t) = (s < t)"

instance
proof
  fix x y z :: "'a vkey"
  show "(x < y) = (x \<le> y \<and> \<not> y \<le> x)"
    by (cases x; cases y) auto
  show "x \<le> x"
    by (cases x) auto
  show "x \<le> y \<Longrightarrow> y \<le> z \<Longrightarrow> x \<le> z"
    by (cases x; cases y; cases z) auto
  show "x \<le> y \<Longrightarrow> y \<le> x \<Longrightarrow> x = y"
    by (cases x; cases y) auto
  show "x \<le> y \<or> y \<le> x"
    by (cases x; cases y) auto
qed

end

definition key :: "('v, 's) packaging \<Rightarrow> string \<Rightarrow> 'v vkey" where
  "key L v = (case Version L v of Some pv \<Rightarrow> WellFormed pv | None \<Rightarrow> Malformed v)"

text \<open>
  \<^verbatim>\<open>sorted(versions, key=key, reverse=True)\<close>: Python sorts the reversed list stably
  in ascending order and reverses the result, so that elements with equal keys keep
  their original order. \<^const>\<open>sort_key\<close> is a stable insertion sort.
\<close>

definition sort_versions :: "('v::linorder, 's) packaging \<Rightarrow> string list \<Rightarrow> string list" where
  "sort_versions L versions = rev (sort_key (key L) (rev versions))"

section \<open>Package names\<close>

text \<open>
  A string is a list of characters, and a character is a code point below 256: the
  model holds the names and lines written in Latin-1, and no other. On these code
  points \<^verbatim>\<open>str.isspace()\<close>, which \<^verbatim>\<open>str.strip()\<close> and the pattern \<^verbatim>\<open>\s\<close> use, holds for
  9 to 13, 28 to 32, 133 (next line) and 160 (no-break space). \<^verbatim>\<open>str.lower()\<close> maps
  each of them to one character: the capitals 65 to 90 and 192 to 222, without the
  multiplication sign 215, to the code point 32 above, every other one to itself.
\<close>

definition isspace :: "char \<Rightarrow> bool" where
  "isspace c =
     (let k = (of_char c :: nat)
      in (9 \<le> k \<and> k \<le> 13) \<or> (28 \<le> k \<and> k \<le> 32) \<or> k = 133 \<or> k = 160)"

definition strip :: "string \<Rightarrow> string" where
  "strip s = rev (dropWhile isspace (rev (dropWhile isspace s)))"

definition lower_char :: "char \<Rightarrow> char" where
  "lower_char c =
     (let k = (of_char c :: nat)
      in if (65 \<le> k \<and> k \<le> 90) \<or> (192 \<le> k \<and> k \<le> 222 \<and> k \<noteq> 215)
         then char_of (k + 32) else c)"

definition lower :: "string \<Rightarrow> string" where
  "lower s = map lower_char s"

definition replace_char :: "char \<Rightarrow> char \<Rightarrow> string \<Rightarrow> string" where
  "replace_char a b s = map (\<lambda>c. if c = a then b else c) s"

definition normalize_name :: "string \<Rightarrow> string" where
  "normalize_name n = replace_char (CHR ''_'') (CHR ''-'') (lower (strip n))"

text \<open>
  \<^verbatim>\<open>normalize_name\<close> of \<^verbatim>\<open>flash/etl_flash.py\<close>: the same three steps, then
  \<^verbatim>\<open>_SPACE_RE.sub("-", ...)\<close>, which replaces every maximal run of whitespace by one
  hyphen.
\<close>

function sub_space_runs :: "string \<Rightarrow> string" where
  "sub_space_runs [] = []"
| "sub_space_runs (c # cs) =
     (if isspace c then CHR ''-'' # sub_space_runs (dropWhile isspace cs)
      else c # sub_space_runs cs)"
  by pat_completeness auto
termination
  by (relation "measure length") (auto simp: le_imp_less_Suc length_dropWhile_le)

definition normalize_name_etl :: "string \<Rightarrow> string" where
  "normalize_name_etl n = sub_space_runs (replace_char (CHR ''_'') (CHR ''-'') (lower (strip n)))"

text \<open>
  The normalization as the specification words it, for comparison with
  \<^const>\<open>normalize_name\<close>: lower-cased and trimmed, with every run of underscores, dots
  and hyphens collapsed to a single hyphen.
\<close>

definition is_separator :: "char \<Rightarrow> bool" where
  "is_separator c = (c = CHR ''_'' \<or> c = CHR ''.'' \<or> c = CHR ''-'')"

function collapse_runs :: "string \<Rightarrow> string" where
  "collapse_runs [] = []"
| "collapse_runs (c # cs) =
     (if is_separator c then CHR ''-'' # collapse_runs (dropWhile is_separator cs)
      else c # collapse_runs cs)"
  by pat_completeness auto
termination
  by (relation "measure length") (auto simp: le_imp_less_Suc length_dropWhile_le)

definition normalize_name_spec :: "string \<Rightarrow> string" where
  "normalize_name_spec n = collapse_runs (lower (strip n))"

section \<open>Requirement files\<close>

text \<open>
  The body of the loop of \<^verbatim>\<open>parse_requirements\<close> on one line: \<open>Inr None\<close> for a
  blank line or a comment line, which the loop skips; \<open>Inl InvalidRequirement\<close> where
  \<^verbatim>\<open>Requirement(line)\<close> raises; otherwise the key and the value that the loop stores
  with \<^verbatim>\<open>result[name] = spec\<close>.
\<close>

definition startswith_hash :: "string \<Rightarrow> bool" where
  "startswith_hash line = (case line of [] \<Rightarrow> False | c # _ \<Rightarrow> c = CHR ''#'')"

definition parse_line :: "('v, 's) packaging \<Rightarrow> string \<Rightarrow> exn + (string \<times> string) option" where
  "parse_line L raw =
     (let line = strip raw in
      if line = [] \<or> startswith_hash line then Inr None
      else case Requirement L line of
        None \<Rightarrow> Inl InvalidRequirement
      | Some (rname, rspec) \<Rightarrow>
          Inr (Some (normalize_name rname,
                     if spec_len L rspec \<noteq> 0 then spec_str L rspec else [])))"

text \<open>
  The loop, with the dictionary \<^verbatim>\<open>result\<close> built so far: an assignment to a key that
  is present overwrites its value.
\<close>

fun parse_requirements_loop ::
  "('v, 's) packaging \<Rightarrow> string list \<Rightarrow> string dict \<Rightarrow> exn + string dict" where
  "parse_requirements_loop L [] result = Inr result"
| "parse_requirements_loop L (raw # req_lines) result =
     (case parse_line L raw of
        Inl e \<Rightarrow> Inl e
      | Inr None \<Rightarrow> parse_requirements_loop L req_lines result
      | Inr (Some (k, s)) \<Rightarrow> parse_requirements_loop L req_lines (AList.update k s result))"

definition parse_requirements :: "('v, 's) packaging \<Rightarrow> string list \<Rightarrow> exn + string dict" where
  "parse_requirements L req_lines = parse_requirements_loop L req_lines []"

section \<open>The resolver\<close>

type_synonym 's target = "string \<times> 's \<times> string"

text \<open>
  \<^verbatim>\<open>not spec or str(spec) == ""\<close>: a \<^verbatim>\<open>SpecifierSet\<close> is false when its length is 0.
\<close>

definition spec_is_empty :: "('v, 's) packaging \<Rightarrow> 's \<Rightarrow> bool" where
  "spec_is_empty L spec = (spec_len L spec = 0 \<or> spec_str L spec = [])"

text \<open>
  The comprehension \<^verbatim>\<open>[v for v in vs if spec.contains(v, prereleases=True)]\<close>: the
  first version on which \<^verbatim>\<open>contains\<close> raises ends it with that exception.
\<close>

fun filter_contains :: "('v, 's) packaging \<Rightarrow> 's \<Rightarrow> string list \<Rightarrow> exn + string list" where
  "filter_contains L spec [] = Inr []"
| "filter_contains L spec (v # vs) =
     (case contains L spec v of
        None \<Rightarrow> Inl InvalidVersion
      | Some b \<Rightarrow>
          (case filter_contains L spec vs of
             Inl e \<Rightarrow> Inl e
           | Inr r \<Rightarrow> Inr (if b then v # r else r)))"

text \<open>Lines 208 to 212 of \<^verbatim>\<open>dfs\<close>: the candidate list before the plan is consulted.\<close>

definition build_cands ::
  "('v::linorder, 's) packaging \<Rightarrow> 's \<Rightarrow> string list \<Rightarrow> exn + string list" where
  "build_cands L spec versions =
     (if spec_is_empty L spec then Inr (sort_versions L versions)
      else filter_contains L spec (rev (sort_versions L versions)))"

text \<open>Lines 217 and 218: a planned version that satisfies the specifier goes first.\<close>

definition keep_first ::
  "('v, 's) packaging \<Rightarrow> PackageSelection dict \<Rightarrow> string \<Rightarrow> 's \<Rightarrow> string list
     \<Rightarrow> exn + string list" where
  "keep_first L plan_state n spec cands =
     (case map_of plan_state n of
        None \<Rightarrow> Inr cands
      | Some sel \<Rightarrow>
          (case contains L spec (version sel) of
             None \<Rightarrow> Inl InvalidVersion
           | Some True \<Rightarrow> Inr (version sel # filter (\<lambda>v. v \<noteq> version sel) cands)
           | Some False \<Rightarrow> Inr cands))"

text \<open>Lines 223 to 228: the provenance of candidate \<open>cand\<close> for \<open>n\<close> against the plan.\<close>

definition classify :: "PackageSelection dict \<Rightarrow> string \<Rightarrow> string \<Rightarrow> provenance" where
  "classify new_plan n cand =
     (case map_of new_plan n of
        None \<Rightarrow> New
      | Some sel \<Rightarrow> if source sel = Existing \<and> version sel = cand then Existing else Upgrade)"

text \<open>\<^verbatim>\<open>"extra ==" in marker\<close>: substring search.\<close>

fun substring_in :: "string \<Rightarrow> string \<Rightarrow> bool" where
  "substring_in p [] = (p = [])"
| "substring_in p (c # cs) = (take (length p) (c # cs) = p \<or> substring_in p cs)"

text \<open>
  Lines 231 to 234: the targets appended for the dependencies of the candidate; a
  specifier string that \<^verbatim>\<open>SpecifierSet\<close> rejects raises.
\<close>

fun dep_targets ::
  "('v, 's) packaging \<Rightarrow> string \<Rightarrow> (string \<times> string \<times> string) list \<Rightarrow> exn + 's target list" where
  "dep_targets L n [] = Inr []"
| "dep_targets L n ((dep_name, dep_spec, marker) # deps) =
     (if marker \<noteq> [] \<and> substring_in ''extra =='' marker then dep_targets L n deps
      else case SpecifierSet L dep_spec of
        None \<Rightarrow> Inl InvalidSpecifier
      | Some sp \<Rightarrow>
          (case dep_targets L n deps of
             Inl e \<Rightarrow> Inl e
           | Inr ts \<Rightarrow> Inr ((normalize_name dep_name, sp, ''dep-of-'' @ n) # ts)))"

text \<open>\<^verbatim>\<open>KGClient.get_versions\<close> sorts what the query returns.\<close>

definition get_versions :: "('v::linorder, 's) packaging \<Rightarrow> KGClient \<Rightarrow> string \<Rightarrow> string list" where
  "get_versions L kg n = sort_versions L (versions_of kg n)"

definition get_requires :: "KGClient \<Rightarrow> string \<Rightarrow> string \<Rightarrow> (string \<times> string \<times> string) list" where
  "get_requires kg n v = requires_of kg n v"

text \<open>
  \<^verbatim>\<open>dfs\<close> and its loop over the candidates. The first argument after the library and
  the client bounds the depth of the recursion: \<open>None\<close> says that the bound was reached
  before the search returned. \<open>Some (Inl e)\<close> is an exception that leaves \<^verbatim>\<open>dfs\<close>,
  \<open>Some (Inr (ok, plan, conflicts))\<close> the returned triple.
\<close>

type_synonym dfs_result = "(exn + bool \<times> PackageSelection dict \<times> conflict list) option"

function
  dfs :: "('v::linorder, 's) packaging \<Rightarrow> KGClient \<Rightarrow> nat \<Rightarrow> 's target list
            \<Rightarrow> PackageSelection dict \<Rightarrow> (string \<times> string) set \<Rightarrow> dfs_result"
  and for_cands :: "('v::linorder, 's) packaging \<Rightarrow> KGClient \<Rightarrow> nat \<Rightarrow> string \<Rightarrow> 's target list
            \<Rightarrow> PackageSelection dict \<Rightarrow> (string \<times> string) set \<Rightarrow> string list \<Rightarrow> dfs_result"
where
  "dfs L kg 0 queue_state plan_state visited = None"
| "dfs L kg (Suc fuel) queue_state plan_state visited =
     (if length plan_state > MAX_PACKAGES
        then Some (Inr (False, plan_state, [TooManyPackages MAX_PACKAGES]))
      else case queue_state of
        [] \<Rightarrow> Some (Inr (True, plan_state, []))
      | (n, spec, tag) # rest \<Rightarrow>
          if length queue_state > MAX_QUEUE
            then Some (Inr (False, plan_state, [QueueTooLong MAX_QUEUE]))
          else if (n, spec_str L spec) \<in> visited then dfs L kg fuel rest plan_state visited
          else
            let visited' = insert (n, spec_str L spec) visited;
                versions = get_versions L kg n
            in if versions = [] then Some (Inr (False, plan_state, [NoVersions n]))
               else case build_cands L spec versions of
                 Inl e \<Rightarrow> Some (Inl e)
               | Inr cands \<Rightarrow>
                   if cands = []
                     then Some (Inr (False, plan_state, [NoMatch n (spec_str L spec)]))
                   else case keep_first L plan_state n spec cands of
                     Inl e \<Rightarrow> Some (Inl e)
                   | Inr cands' \<Rightarrow> for_cands L kg fuel n rest plan_state visited' cands')"
| "for_cands L kg fuel n rest plan_state visited [] =
     Some (Inr (False, plan_state, [AllCandidatesFail n]))"
| "for_cands L kg fuel n rest plan_state visited (cand # cands) =
     (let new_plan = AList.update n
            \<lparr>name = n, version = cand, source = classify plan_state n cand\<rparr> plan_state
      in case dep_targets L n (get_requires kg n cand) of
        Inl e \<Rightarrow> Some (Inl e)
      | Inr ts \<Rightarrow>
          (case dfs L kg fuel (rest @ ts) new_plan visited of
             None \<Rightarrow> None
           | Some (Inl e) \<Rightarrow> Some (Inl e)
           | Some (Inr (ok', p2, conf)) \<Rightarrow>
               if ok' then Some (Inr (True, p2, conf))
               else for_cands L kg fuel n rest plan_state visited cands))"
  by pat_completeness auto
termination
  by (relation "measures
       [\<lambda>x. case x of
          Inl (L, kg, fuel, q, p, vis) \<Rightarrow> fuel
        | Inr (L, kg, fuel, n, q, p, vis, cands) \<Rightarrow> fuel,
        \<lambda>x. case x of
          Inl (L, kg, fuel, q, p, vis) \<Rightarrow> 0
        | Inr (L, kg, fuel, n, q, p, vis, cands) \<Rightarrow> Suc (length cands)]") auto

text \<open>
  One call of \<^verbatim>\<open>dfs\<close> up to its first recursive call, for reasoning about the search:
  the call returns (\<open>Done\<close>), raises (\<open>Raise\<close>), skips a visited target and continues with
  the rest of the queue (\<open>Skip\<close>), or enters the loop over the candidates (\<open>Expand\<close>).
\<close>

datatype 's dfs_step =
    Done "bool \<times> PackageSelection dict \<times> conflict list"
  | Raise exn
  | Skip "'s target list"
  | Expand string "'s target list" "(string \<times> string) set" "string list"

definition dfs_step ::
  "('v::linorder, 's) packaging \<Rightarrow> KGClient \<Rightarrow> 's target list \<Rightarrow> PackageSelection dict
     \<Rightarrow> (string \<times> string) set \<Rightarrow> 's dfs_step" where
  "dfs_step L kg queue_state plan_state visited =
     (if length plan_state > MAX_PACKAGES
        then Done (False, plan_state, [TooManyPackages MAX_PACKAGES])
      else case queue_state of
        [] \<Rightarrow> Done (True, plan_state, [])
      | (n, spec, tag) # rest \<Rightarrow>
          if length queue_state > MAX_QUEUE
            then Done (False, plan_state, [QueueTooLong MAX_QUEUE])
          else if (n, spec_str L spec) \<in> visited then Skip rest
          else if get_versions L kg n = [] then Done (False, plan_state, [NoVersions n])
          else case build_cands L spec (get_versions L kg n) of
            Inl e \<Rightarrow> Raise e
          | Inr cands \<Rightarrow>
              if cands = [] then Done (False, plan_state, [NoMatch n (spec_str L spec)])
              else case keep_first L plan_state n spec cands of
                Inl e \<Rightarrow> Raise e
              | Inr cands' \<Rightarrow> Expand n rest (insert (n, spec_str L spec) visited) cands')"

text \<open>
  \<^verbatim>\<open>resolve_plan\<close>: the initial plan is the dictionary comprehension over
  \<^verbatim>\<open>current.items()\<close> (a later item of the same normalized name overwrites an earlier
  one), the initial queue holds the targets with their specifiers parsed.
\<close>

definition initial_plan :: "string dict \<Rightarrow> PackageSelection dict" where
  "initial_plan current =
     fold (\<lambda>(k, v) pl.
        AList.update (normalize_name k)
          \<lparr>name = normalize_name k, version = v, source = Existing\<rparr> pl) current []"

fun initial_queue ::
  "('v, 's) packaging \<Rightarrow> (string \<times> string \<times> string) list \<Rightarrow> exn + 's target list" where
  "initial_queue L [] = Inr []"
| "initial_queue L ((n, spec_s, tag) # targets) =
     (case SpecifierSet L spec_s of
        None \<Rightarrow> Inl InvalidSpecifier
      | Some sp \<Rightarrow>
          (case initial_queue L targets of
             Inl e \<Rightarrow> Inl e
           | Inr q \<Rightarrow> Inr ((normalize_name n, sp, tag) # q)))"

definition resolve_plan ::
  "('v::linorder, 's) packaging \<Rightarrow> KGClient \<Rightarrow> nat \<Rightarrow> string dict
     \<Rightarrow> (string \<times> string \<times> string) list \<Rightarrow> (exn + ResolutionResult) option" where
  "resolve_plan L kg fuel current targets =
     (case initial_queue L targets of
        Inl e \<Rightarrow> Some (Inl e)
      | Inr queue \<Rightarrow>
          (case dfs L kg fuel queue (initial_plan current) {} of
             None \<Rightarrow> None
           | Some (Inl e) \<Rightarrow> Some (Inl e)
           | Some (Inr (ok', plan_res, confs)) \<Rightarrow>
               Some (Inr \<lparr>ok = ok', plan = plan_res, conflicts = confs\<rparr>)))"

section \<open>The three tasks\<close>

text \<open>
  \<^verbatim>\<open>merged.setdefault(k, None)\<close> on a dictionary whose values are version strings or
  \<^verbatim>\<open>None\<close>.
\<close>

definition setdefault_None :: "string \<Rightarrow> string option dict \<Rightarrow> string option dict" where
  "setdefault_None k merged =
     (case map_of merged k of None \<Rightarrow> merged @ [(k, None)] | Some _ \<Rightarrow> merged)"

text \<open>
  The loop of \<^verbatim>\<open>task1_check_single\<close> over \<^verbatim>\<open>req_map.items()\<close>: \<open>Inr (Inl r)\<close> is the
  early return of the conflict \<open>r\<close>, \<open>Inr (Inr merged)\<close> the dictionary after the loop.
\<close>

fun task1_merge ::
  "('v, 's) packaging \<Rightarrow> string dict \<Rightarrow> string option dict
     \<Rightarrow> exn + (ResolutionResult + string option dict)" where
  "task1_merge L [] merged = Inr (Inr merged)"
| "task1_merge L ((k, s) # items) merged =
     (if s \<noteq> [] then
        (case map_of merged k of
           None \<Rightarrow> task1_merge L items (setdefault_None k merged)
         | Some installed \<Rightarrow>
             (case SpecifierSet L s of
                None \<Rightarrow> Inl InvalidSpecifier
              | Some sp \<Rightarrow>
                  (case installed of
                     None \<Rightarrow> Inl TypeError
                   | Some v \<Rightarrow>
                       (case contains L sp v of
                          None \<Rightarrow> Inl InvalidVersion
                        | Some True \<Rightarrow> task1_merge L items (setdefault_None k merged)
                        | Some False \<Rightarrow>
                            Inr (Inl \<lparr>ok = False, plan = [],
                                      conflicts = [InstalledMismatch k v s]\<rparr>)))))
      else task1_merge L items (setdefault_None k merged))"

text \<open>\<^verbatim>\<open>{k: v for k, v in merged.items() if v}\<close>: \<^verbatim>\<open>None\<close> and \<^verbatim>\<open>""\<close> are false.\<close>

definition truthy_items :: "string option dict \<Rightarrow> string dict" where
  "truthy_items merged =
     List.map_filter (\<lambda>(k, v). case v of None \<Rightarrow> None
        | Some w \<Rightarrow> if w \<noteq> [] then Some (k, w) else None) merged"

definition task1_check_single ::
  "('v::linorder, 's) packaging \<Rightarrow> KGClient \<Rightarrow> nat \<Rightarrow> string dict \<Rightarrow> string list
     \<Rightarrow> string \<Rightarrow> string \<Rightarrow> (exn + ResolutionResult) option" where
  "task1_check_single L kg fuel current req_lines new_pkg spec =
     (case parse_requirements L req_lines of
        Inl e \<Rightarrow> Some (Inl e)
      | Inr req_map \<Rightarrow>
          (case task1_merge L req_map (map (\<lambda>(k, v). (k, Some v)) current) of
             Inl e \<Rightarrow> Some (Inl e)
           | Inr (Inl r) \<Rightarrow> Some (Inr r)
           | Inr (Inr merged) \<Rightarrow>
               resolve_plan L kg fuel (truthy_items merged) [(new_pkg, spec, ''target'')]))"

text \<open>
  The targets that \<^verbatim>\<open>task2\<close> and \<^verbatim>\<open>task3\<close> append: the entries of \<^verbatim>\<open>req_map\<close> with
  a non-empty specifier whose key is a key of the environment.
\<close>

definition req_targets :: "string dict \<Rightarrow> string dict \<Rightarrow> (string \<times> string \<times> string) list" where
  "req_targets merged req_map =
     map (\<lambda>(k, s). (k, s, ''req''))
       (filter (\<lambda>(k, s). map_of merged k \<noteq> None \<and> s \<noteq> []) req_map)"

definition task2_install_single_with_upgrade ::
  "('v::linorder, 's) packaging \<Rightarrow> KGClient \<Rightarrow> nat \<Rightarrow> string dict \<Rightarrow> string list
     \<Rightarrow> string \<Rightarrow> string \<Rightarrow> (exn + ResolutionResult) option" where
  "task2_install_single_with_upgrade L kg fuel current req_lines new_pkg min_spec =
     (case parse_requirements L req_lines of
        Inl e \<Rightarrow> Some (Inl e)
      | Inr req_map \<Rightarrow>
          resolve_plan L kg fuel current
            ((new_pkg, min_spec, ''target'') # req_targets current req_map))"

definition task3_install_multi_with_upgrade ::
  "('v::linorder, 's) packaging \<Rightarrow> KGClient \<Rightarrow> nat \<Rightarrow> string dict \<Rightarrow> string list
     \<Rightarrow> (string \<times> string) list \<Rightarrow> (exn + ResolutionResult) option" where
  "task3_install_multi_with_upgrade L kg fuel current req_lines new_pkgs =
     (case parse_requirements L req_lines of
        Inl e \<Rightarrow> Some (Inl e)
      | Inr req_map \<Rightarrow>
          resolve_plan L kg fuel current
            (map (\<lambda>(n, spec). (n, spec, ''target'')) new_pkgs @ req_targets current req_map))"

section \<open>An instance of the library for running the resolver\<close>

text \<open>
  To run the resolver on concrete inputs the operations of \<^verbatim>\<open>packaging\<close> need values.
  \<open>pep440\<close> is a fragment of the library's documented behaviour: a version is a
  dot-separated sequence of decimal numbers, compared number by number with trailing
  zeros ignored; a specifier set is a comma-separated list of clauses, each one of
  \<^verbatim>\<open>>= <= == != > <\<close> followed by a version; a requirement line is a name followed by a
  specifier set; any other version string makes \<^verbatim>\<open>Version\<close> and \<^verbatim>\<open>contains\<close> raise
  \<^verbatim>\<open>InvalidVersion\<close>, as the library does since its release 22. Only the examples use
  \<open>pep440\<close>; every general theorem holds for all values of the operations.
\<close>

fun split_on :: "char \<Rightarrow> string \<Rightarrow> string list" where
  "split_on d [] = [[]]"
| "split_on d (c # cs) =
     (if c = d then [] # split_on d cs
      else case split_on d cs of [] \<Rightarrow> [[c]] | w # ws \<Rightarrow> (c # w) # ws)"

definition digit_val :: "char \<Rightarrow> nat option" where
  "digit_val c = (let k = (of_char c :: nat) in if 48 \<le> k \<and> k \<le> 57 then Some (k - 48) else None)"

fun number_acc :: "nat \<Rightarrow> string \<Rightarrow> nat option" where
  "number_acc acc [] = Some acc"
| "number_acc acc (c # cs) =
     (case digit_val c of None \<Rightarrow> None | Some d \<Rightarrow> number_acc (10 * acc + d) cs)"

definition number :: "string \<Rightarrow> nat option" where
  "number s = (if s = [] then None else number_acc 0 s)"

fun all_some :: "'a option list \<Rightarrow> 'a list option" where
  "all_some [] = Some []"
| "all_some (None # xs) = None"
| "all_some (Some x # xs) = (case all_some xs of None \<Rightarrow> None | Some r \<Rightarrow> Some (x # r))"

definition pep440_Version :: "string \<Rightarrow> nat list option" where
  "pep440_Version s =
     (case all_some (map number (split_on (CHR ''.'') s)) of
        None \<Rightarrow> None
      | Some release \<Rightarrow> Some (rev (dropWhile (\<lambda>k. k = 0) (rev release))))"

datatype cmp_op = GE | LE | EQ | NE | GT | LT

definition parse_clause :: "string \<Rightarrow> (cmp_op \<times> nat list) option" where
  "parse_clause c =
     (let with_op = (\<lambda>op' rest. case pep440_Version (strip rest) of
                       None \<Rightarrow> None | Some w \<Rightarrow> Some (op', w))
      in if take 2 c = ''>='' then with_op GE (drop 2 c)
         else if take 2 c = ''<='' then with_op LE (drop 2 c)
         else if take 2 c = ''=='' then with_op EQ (drop 2 c)
         else if take 2 c = ''!='' then with_op NE (drop 2 c)
         else if take 1 c = ''>'' then with_op GT (drop 1 c)
         else if take 1 c = ''<'' then with_op LT (drop 1 c)
         else None)"

fun holds :: "cmp_op \<Rightarrow> nat list \<Rightarrow> nat list \<Rightarrow> bool" where
  "holds GE v w = (w \<le> v)"
| "holds LE v w = (v \<le> w)"
| "holds EQ v w = (v = w)"
| "holds NE v w = (v \<noteq> w)"
| "holds GT v w = (w < v)"
| "holds LT v w = (v < w)"

definition pep440_SpecifierSet :: "string \<Rightarrow> string list option" where
  "pep440_SpecifierSet s =
     (let clauses = remdups (filter (\<lambda>c. c \<noteq> []) (map strip (split_on (CHR '','') s)))
      in if list_all (\<lambda>c. parse_clause c \<noteq> None) clauses then Some clauses else None)"

fun join_comma :: "string list \<Rightarrow> string" where
  "join_comma [] = []"
| "join_comma [c] = c"
| "join_comma (c # cs) = c @ '','' @ join_comma cs"

definition pep440_contains :: "string list \<Rightarrow> string \<Rightarrow> bool option" where
  "pep440_contains clauses v =
     (case pep440_Version v of
        None \<Rightarrow> None
      | Some pv \<Rightarrow>
          Some (list_all (\<lambda>c. case parse_clause c of
                              None \<Rightarrow> False | Some (op', w) \<Rightarrow> holds op' pv w) clauses))"

definition name_char :: "char \<Rightarrow> bool" where
  "name_char c = (c \<notin> set ''<>=!~;,[]() '')"

definition pep440_Requirement :: "string \<Rightarrow> (string \<times> string list) option" where
  "pep440_Requirement line =
     (let n = takeWhile name_char line in
      if n = [] then None
      else case pep440_SpecifierSet (dropWhile name_char line) of
        None \<Rightarrow> None
      | Some sp \<Rightarrow> Some (n, sp))"

definition pep440 :: "(nat list, string list) packaging" where
  "pep440 =
     \<lparr>Version = pep440_Version,
      SpecifierSet = pep440_SpecifierSet,
      spec_len = length,
      spec_str = (\<lambda>clauses. join_comma (sort clauses)),
      contains = pep440_contains,
      Requirement = pep440_Requirement\<rparr>"

section \<open>Example graphs\<close>

text \<open>
  Packages \<open>x\<close> and \<open>y\<close>, one version each; \<open>x\<close> requires \<open>a>=2.0\<close>, \<open>y\<close> requires
  \<open>a<2.0\<close>; \<open>a\<close> has the versions 1.0 and 2.0.
\<close>

definition kg_conflict :: KGClient where
  "kg_conflict =
     \<lparr>versions_of = (\<lambda>n. if n = ''x'' \<or> n = ''y'' then [''1.0'']
                          else if n = ''a'' then [''1.0'', ''2.0''] else []),
      requires_of = (\<lambda>n v. if n = ''x'' then [(''a'', ''>=2.0'', [])]
                            else if n = ''y'' then [(''a'', ''<2.0'', [])] else [])\<rparr>"

text \<open>
  \<open>pandas\<close> 2.0.0 requires \<open>numpy>=1.24.0\<close>; \<open>numpy\<close> has the versions 1.20.0, 1.24.0
  and 1.25.0.
\<close>

definition kg_numpy :: KGClient where
  "kg_numpy =
     \<lparr>versions_of = (\<lambda>n. if n = ''pandas'' then [''2.0.0'']
                          else if n = ''numpy'' then [''1.20.0'', ''1.24.0'', ''1.25.0''] else []),
      requires_of = (\<lambda>n v. if n = ''pandas'' then [(''numpy'', ''>=1.24.0'', [])] else [])\<rparr>"


text \<open>A package with a version string that is not a version.\<close>

definition kg_malformed :: KGClient where
  "kg_malformed =
     \<lparr>versions_of = (\<lambda>n. if n = ''pkg'' then [''1.0'', ''not-a-version''] else []),
      requires_of = (\<lambda>n v. [])\<rparr>"

section \<open>The search, one call at a time\<close>

lemma dfs_Suc:
  "dfs L kg (Suc fuel) q pl vis =
     (case dfs_step L kg q pl vis of
        Done r \<Rightarrow> Some (Inr r)
      | Raise e \<Rightarrow> Some (Inl e)
      | Skip rest \<Rightarrow> dfs L kg fuel rest pl vis
      | Expand n rest vis' cands \<Rightarrow> for_cands L kg fuel n rest pl vis' cands)"
  by (simp add: dfs_step_def Let_def split: list.split sum.split prod.split)

lemma for_cands_Cons:
  "for_cands L kg fuel n rest pl vis (cand # cands) =
     (case dep_targets L n (get_requires kg n cand) of
        Inl e \<Rightarrow> Some (Inl e)
      | Inr ts \<Rightarrow>
          (case dfs L kg fuel (rest @ ts)
                  (AList.update n \<lparr>name = n, version = cand, source = classify pl n cand\<rparr> pl) vis of
             None \<Rightarrow> None
           | Some (Inl e) \<Rightarrow> Some (Inl e)
           | Some (Inr r) \<Rightarrow>
               if fst r then Some (Inr r) else for_cands L kg fuel n rest pl vis cands))"
  by (simp add: Let_def split: sum.split option.split prod.split)

lemma dfs_0 [simp]: "dfs L kg 0 q pl vis = None"
  by simp

lemma for_cands_Nil [simp]:
  "for_cands L kg fuel n rest pl vis [] = Some (Inr (False, pl, [AllCandidatesFail n]))"
  by simp

declare dfs.simps [simp del] for_cands.simps [simp del]

subsection \<open>A returned triple has no conflict on success and one on failure\<close>




subsection \<open>A larger bound on the depth does not change a result\<close>

lemma for_cands_fuel_Suc:
  assumes IH: "\<And>q pl vis r. dfs L kg fuel q pl vis = Some r
                 \<Longrightarrow> dfs L kg (Suc fuel) q pl vis = Some r"
  shows "for_cands L kg fuel n rest pl vis cands = Some r
           \<Longrightarrow> for_cands L kg (Suc fuel) n rest pl vis cands = Some r"
proof (induction cands)
  case Nil
  then show ?case by simp
next
  case (Cons cand cands)
  show ?case
  proof (cases "dep_targets L n (get_requires kg n cand)")
    case (Inl e)
    with Cons.prems show ?thesis unfolding for_cands_Cons by simp
  next
    case (Inr ts)
    let ?pl = "AList.update n \<lparr>name = n, version = cand, source = classify pl n cand\<rparr> pl"
    from Inr Cons.prems obtain r' where r': "dfs L kg fuel (rest @ ts) ?pl vis = Some r'"
      unfolding for_cands_Cons by (cases "dfs L kg fuel (rest @ ts) ?pl vis") auto
    then have r'': "dfs L kg (Suc fuel) (rest @ ts) ?pl vis = Some r'"
      by (rule IH)
    from Cons.prems Cons.IH Inr r' r'' show ?thesis
      by (auto simp add: for_cands_Cons split: sum.splits if_splits)
  qed
qed

lemma dfs_fuel_Suc:
  "dfs L kg fuel q pl vis = Some r \<Longrightarrow> dfs L kg (Suc fuel) q pl vis = Some r"
proof (induction fuel arbitrary: q pl vis r)
  case 0
  then show ?case by simp
next
  case (Suc fuel)
  show ?case
  proof (cases "dfs_step L kg q pl vis")
    case (Done r')
    with Suc.prems show ?thesis by (simp add: dfs_Suc)
  next
    case (Raise e)
    with Suc.prems show ?thesis by (simp add: dfs_Suc)
  next
    case (Skip rest')
    with Suc.prems have "dfs L kg fuel rest' pl vis = Some r"
      by (simp add: dfs_Suc)
    then have "dfs L kg (Suc fuel) rest' pl vis = Some r"
      by (rule Suc.IH)
    with Skip show ?thesis
      by (simp add: dfs_Suc [of L kg "Suc fuel"])
  next
    case (Expand n' rest' vis' cands)
    with Suc.prems have "for_cands L kg fuel n' rest' pl vis' cands = Some r"
      by (simp add: dfs_Suc)
    then have "for_cands L kg (Suc fuel) n' rest' pl vis' cands = Some r"
      using for_cands_fuel_Suc [of L kg fuel] Suc.IH by blast
    with Expand show ?thesis
      by (simp add: dfs_Suc [of L kg "Suc fuel"])
  qed
qed

lemma dfs_fuel_mono:
  "dfs L kg fuel q pl vis = Some r \<Longrightarrow> fuel \<le> fuel' \<Longrightarrow> dfs L kg fuel' q pl vis = Some r"
proof (induction fuel')
  case 0
  then show ?case by simp
next
  case (Suc fuel')
  then show ?case
    by (cases "fuel = Suc fuel'") (auto intro: dfs_fuel_Suc)
qed

lemma dfs_deterministic:
  assumes "dfs L kg f1 q pl vis = Some r1" and "dfs L kg f2 q pl vis = Some r2"
  shows "r1 = r2"
proof -
  from assms have "dfs L kg (max f1 f2) q pl vis = Some r1"
    and "dfs L kg (max f1 f2) q pl vis = Some r2"
    by (auto intro: dfs_fuel_mono)
  then show ?thesis by simp
qed

lemma resolve_plan_deterministic:
  assumes "resolve_plan L kg f1 current targets = Some r1"
    and "resolve_plan L kg f2 current targets = Some r2"
  shows "r1 = r2"
proof (cases "initial_queue L targets")
  case (Inl e)
  with assms show ?thesis by (simp add: resolve_plan_def)
next
  case (Inr queue)
  from assms Inr obtain d1 d2 where
    d: "dfs L kg f1 queue (initial_plan current) {} = Some d1"
       "dfs L kg f2 queue (initial_plan current) {} = Some d2"
    by (auto simp: resolve_plan_def split: option.splits)
  then have "d1 = d2" by (rule dfs_deterministic)
  with assms Inr d show ?thesis
    by (auto simp: resolve_plan_def split: sum.splits)
qed

section \<open>Conflicts of a returned result\<close>










section \<open>The order of versions\<close>

lemma sorted_sort_versions: "sorted (map (key L) (rev (sort_versions L vs)))"
  by (simp add: sort_versions_def)

text \<open>
  Claim C6: the comparison of the sort keys of \<^const>\<open>sort_versions\<close> is total and
  transitive: of \<open>a < b\<close>, \<open>a = b\<close> and \<open>b < a\<close> exactly one holds, equality being that of
  the keys (for well-formed versions the parsed versions, for malformed ones the
  strings). Every malformed version is greater than every well-formed one, malformed
  versions are ordered as strings, lexicographically, and well-formed ones as
  \<^verbatim>\<open>Version\<close> orders them. \<^const>\<open>sort_versions\<close> returns its list in descending order of
  the keys.
\<close>

theorem version_order:
  fixes L :: "('v::linorder, 's) packaging"
  shows "(key L a < key L b \<or> key L a = key L b \<or> key L b < key L a) \<and>
         \<not> (key L a < key L b \<and> key L a = key L b) \<and>
         \<not> (key L a < key L b \<and> key L b < key L a) \<and>
         \<not> (key L a = key L b \<and> key L b < key L a) \<and>
         (key L a < key L b \<and> key L b < key L c \<longrightarrow> key L a < key L c) \<and>
         (Version L a \<noteq> None \<and> Version L b = None \<longrightarrow> key L a < key L b) \<and>
         (Version L a = None \<and> Version L b = None \<longrightarrow>
            (key L a < key L b \<longleftrightarrow> a < b) \<and> (key L a = key L b \<longleftrightarrow> a = b)) \<and>
         (\<forall>x y. Version L a = Some x \<and> Version L b = Some y \<longrightarrow>
            (key L a < key L b \<longleftrightarrow> x < y) \<and> (key L a = key L b \<longleftrightarrow> x = y)) \<and>
         sorted (map (key L) (rev (sort_versions L vs)))"
proof -
  have tri: "key L a < key L b \<or> key L a = key L b \<or> key L b < key L a"
    by (rule less_linear)
  have ex: "\<not> (key L a < key L b \<and> key L a = key L b)"
    "\<not> (key L a < key L b \<and> key L b < key L a)"
    "\<not> (key L a = key L b \<and> key L b < key L a)"
    by auto
  have tr: "key L a < key L b \<and> key L b < key L c \<longrightarrow> key L a < key L c"
    by auto
  have mal: "Version L a \<noteq> None \<and> Version L b = None \<longrightarrow> key L a < key L b"
    by (auto simp: key_def)
  have lex: "Version L a = None \<and> Version L b = None \<longrightarrow>
            (key L a < key L b \<longleftrightarrow> a < b) \<and> (key L a = key L b \<longleftrightarrow> a = b)"
    by (auto simp: key_def)
  have wf: "\<forall>x y. Version L a = Some x \<and> Version L b = Some y \<longrightarrow>
            (key L a < key L b \<longleftrightarrow> x < y) \<and> (key L a = key L b \<longleftrightarrow> x = y)"
    by (auto simp: key_def)
  from tri ex tr mal lex wf sorted_sort_versions [of L vs] show ?thesis
    by blast
qed

text \<open>
  Witness for C6: 1.9 is below 1.10, both are below the malformed \<^verbatim>\<open>abc\<close>, and
  \<^verbatim>\<open>abc\<close> is below \<^verbatim>\<open>abd\<close>.
\<close>

theorem version_order_witness:
  "key pep440 ''1.9'' < key pep440 ''1.10'' \<and>
   key pep440 ''1.10'' < key pep440 ''abc'' \<and>
   key pep440 ''1.9'' < key pep440 ''abc'' \<and>
   key pep440 ''abc'' < key pep440 ''abd''"
proof -
  have v: "Version pep440 ''1.9'' = Some [1, 9]" "Version pep440 ''1.10'' = Some [1, 10]"
    "Version pep440 ''abc'' = None" "Version pep440 ''abd'' = None"
    by code_simp+
  have lt: "[1, 9] < [1, 10 :: nat]" "''abc'' < ''abd''"
    by code_simp+
  from version_order [of pep440 "''1.9''" "''1.10''" "''abc''" "[]"]
    version_order [of pep440 "''1.10''" "''abc''" "''abd''" "[]"]
    version_order [of pep440 "''abc''" "''abd''" "''abd''" "[]"]
    v lt
  show ?thesis by simp
qed

section \<open>Requirement lines of the same package\<close>

lemma loop_append:
  "parse_requirements_loop L (pre @ rest) acc =
     (case parse_requirements_loop L pre acc of
        Inl e \<Rightarrow> Inl e
      | Inr a \<Rightarrow> parse_requirements_loop L rest a)"
  by (induction pre arbitrary: acc) (auto split: sum.splits option.splits)

lemma loop_other_keys:
  assumes "\<forall>l\<in>set post. \<forall>s. parse_line L l \<noteq> Inr (Some (k, s))"
    and "parse_requirements_loop L post acc = Inr m"
  shows "map_of m k = map_of acc k"
  using assms
proof (induction post arbitrary: acc)
  case Nil
  then show ?case by simp
next
  case (Cons l post)
  show ?case
  proof (cases "parse_line L l")
    case (Inl e)
    with Cons.prems show ?thesis by simp
  next
    case (Inr entry)
    show ?thesis
    proof (cases entry)
      case None
      with Inr Cons show ?thesis by simp
    next
      case (Some ks)
      obtain k' s' where ks: "ks = (k', s')" by (cases ks)
      with Inr Some Cons.prems have neq: "k' \<noteq> k" by auto
      from Inr Some ks Cons.prems
      have "parse_requirements_loop L post (AList.update k' s' acc) = Inr m"
        by simp
      with Cons.prems have "map_of m k = map_of (AList.update k' s' acc) k"
        by (intro Cons.IH) auto
      with neq show ?thesis by (simp add: update_conv')
    qed
  qed
qed

lemma update_twice: "AList.update k v (AList.update k v' al) = AList.update k v al"
  by (induction al) auto

lemma update_swap_present:
  "k \<noteq> k' \<Longrightarrow> k \<in> fst ` set al \<Longrightarrow>
     AList.update k' w (AList.update k v al) = AList.update k v (AList.update k' w al)"
  by (induction al) auto

lemma loop_overwritten:
  assumes l2: "parse_line L l2 = Inr (Some (k, s2))"
  shows "k \<in> fst ` set a \<Longrightarrow>
     parse_requirements_loop L (mid @ l2 # post) (AList.update k s' a) =
     parse_requirements_loop L (mid @ l2 # post) a"
proof (induction mid arbitrary: a)
  case Nil
  with l2 show ?case by (simp add: update_twice)
next
  case (Cons l mid)
  show ?case
  proof (cases "parse_line L l")
    case (Inl e)
    then show ?thesis by simp
  next
    case (Inr entry)
    show ?thesis
    proof (cases entry)
      case None
      with Inr Cons show ?thesis by simp
    next
      case (Some ks)
      obtain k' w where ks: "ks = (k', w)" by (cases ks)
      show ?thesis
      proof (cases "k' = k")
        case True
        with Inr Some ks show ?thesis by (simp add: update_twice)
      next
        case False
        from Cons.prems have "k \<in> fst ` set (AList.update k' w a)"
          by (simp add: dom_update)
        then have "parse_requirements_loop L (mid @ l2 # post) (AList.update k s' (AList.update k' w a)) =
           parse_requirements_loop L (mid @ l2 # post) (AList.update k' w a)"
          by (rule Cons.IH)
        with False Cons.prems Inr Some ks show ?thesis
          by (simp add: update_swap_present)
      qed
    qed
  qed
qed

lemma parse_requirements_earlier_irrelevant:
  assumes l1: "parse_line L l1 = Inr (Some (k, s1))"
    and l1': "parse_line L l1' = Inr (Some (k, s1'))"
    and l2: "parse_line L l2 = Inr (Some (k, s2))"
  shows "parse_requirements L (pre @ l1' # mid @ l2 # post) =
         parse_requirements L (pre @ l1 # mid @ l2 # post)"
proof (cases "parse_requirements_loop L pre []")
  case (Inl e)
  then show ?thesis by (simp add: parse_requirements_def loop_append)
next
  case (Inr a)
  have "k \<in> fst ` set (AList.update k s1 a)" by (simp add: dom_update)
  from loop_overwritten [OF l2 this, of mid post s1']
  have "parse_requirements_loop L (mid @ l2 # post) (AList.update k s1' a) =
        parse_requirements_loop L (mid @ l2 # post) (AList.update k s1 a)"
    by (simp add: update_twice)
  with Inr l1 l1' show ?thesis
    by (simp add: parse_requirements_def loop_append)
qed

lemma parse_requirements_last:
  assumes l2: "parse_line L l2 = Inr (Some (k, s2))"
    and post: "\<forall>l\<in>set post. \<forall>s. parse_line L l \<noteq> Inr (Some (k, s))"
    and m: "parse_requirements L (pre @ l2 # post) = Inr m"
  shows "map_of m k = Some s2"
proof -
  from m obtain a where a: "parse_requirements_loop L pre [] = Inr a"
    and rest: "parse_requirements_loop L post (AList.update k s2 a) = Inr m"
    using l2 by (auto simp: parse_requirements_def loop_append split: sum.splits)
  from loop_other_keys [OF post rest] show ?thesis
    by (simp add: update_conv')
qed

text \<open>
  Claim C10: when two non-comment requirement lines \<open>l1\<close> and \<open>l2\<close> name packages with
  the same normalized name \<open>k\<close>, and no line after \<open>l2\<close> names \<open>k\<close>,
  \<^const>\<open>parse_requirements\<close> maps \<open>k\<close> to the specifier of \<open>l2\<close>. The specifier of the
  earlier line is dropped: replacing \<open>l1\<close> by any other line \<open>l1'\<close> for \<open>k\<close> changes
  neither the parsed dictionary nor the outcome of any of the three tasks.
\<close>

theorem parse_requirements_last_wins:
  assumes "parse_line L l1 = Inr (Some (k, s1))"
    and "parse_line L l2 = Inr (Some (k, s2))"
    and "\<forall>l\<in>set post. \<forall>s. parse_line L l \<noteq> Inr (Some (k, s))"
    and "parse_requirements L (pre @ l1 # mid @ l2 # post) = Inr m"
  shows "map_of m k = Some s2 \<and>
         (parse_line L l1' = Inr (Some (k, s1')) \<longrightarrow>
            parse_requirements L (pre @ l1' # mid @ l2 # post) = Inr m \<and>
            task1_check_single L kg fuel current (pre @ l1' # mid @ l2 # post) new_pkg spec =
              task1_check_single L kg fuel current (pre @ l1 # mid @ l2 # post) new_pkg spec \<and>
            task2_install_single_with_upgrade L kg fuel current
                (pre @ l1' # mid @ l2 # post) new_pkg spec =
              task2_install_single_with_upgrade L kg fuel current
                (pre @ l1 # mid @ l2 # post) new_pkg spec \<and>
            task3_install_multi_with_upgrade L kg fuel current
                (pre @ l1' # mid @ l2 # post) new_pkgs =
              task3_install_multi_with_upgrade L kg fuel current
                (pre @ l1 # mid @ l2 # post) new_pkgs)"
proof -
  from assms(4) have "parse_requirements L ((pre @ l1 # mid) @ l2 # post) = Inr m"
    by simp
  from parse_requirements_last [OF assms(2) assms(3) this]
  have last: "map_of m k = Some s2" .
  have same: "parse_requirements L (pre @ l1' # mid @ l2 # post) =
        parse_requirements L (pre @ l1 # mid @ l2 # post)"
    if "parse_line L l1' = Inr (Some (k, s1'))"
    using assms(1) that assms(2) by (rule parse_requirements_earlier_irrelevant)
  from last same assms(4) show ?thesis
    by (simp add: task1_check_single_def task2_install_single_with_upgrade_def
          task3_install_multi_with_upgrade_def)
qed

text \<open>
  Witness for C10: of \<^verbatim>\<open>numpy>=1.0\<close> and \<^verbatim>\<open>NumPy<1.3\<close> only \<^verbatim>\<open><1.3\<close> is kept, and
  \<^verbatim>\<open>numpy==0.1\<close> in the place of the first line gives the same dictionary.
\<close>

theorem parse_requirements_last_wins_witness:
  "parse_requirements pep440 [''numpy>=1.0'', ''# pinned'', ''NumPy<1.3'', ''pandas''] =
     Inr [(''numpy'', ''<1.3''), (''pandas'', [])] \<and>
   map_of [(''numpy'', ''<1.3''), (''pandas'', [])] ''numpy'' = Some ''<1.3'' \<and>
   parse_requirements pep440 [''numpy==0.1'', ''# pinned'', ''NumPy<1.3'', ''pandas''] =
     Inr [(''numpy'', ''<1.3''), (''pandas'', [])]"
proof -
  have l1: "parse_line pep440 ''numpy>=1.0'' = Inr (Some (''numpy'', ''>=1.0''))"
    and l1': "parse_line pep440 ''numpy==0.1'' = Inr (Some (''numpy'', ''==0.1''))"
    and l2: "parse_line pep440 ''NumPy<1.3'' = Inr (Some (''numpy'', ''<1.3''))"
    and l3: "parse_line pep440 ''pandas'' = Inr (Some (''pandas'', []))"
    by code_simp+
  have post: "\<forall>l\<in>set [''pandas'']. \<forall>s. parse_line pep440 l \<noteq> Inr (Some (''numpy'', s))"
    by (simp add: l3)
  have m: "parse_requirements pep440 ([] @ ''numpy>=1.0'' # [''# pinned''] @ ''NumPy<1.3'' # [''pandas'']) =
     Inr [(''numpy'', ''<1.3''), (''pandas'', [])]"
    by code_simp
  from parse_requirements_last_wins [OF l1 l2 post m, of "''numpy==0.1''" "''==0.1''"] l1' m
  show ?thesis by simp
qed

section \<open>The candidate list\<close>







section \<open>Package names: what \<^const>\<open>normalize_name\<close> computes\<close>

lemma of_char_lower_char:
  "(of_char (lower_char c) :: nat) =
     (if (65 \<le> (of_char c :: nat) \<and> (of_char c :: nat) \<le> 90) \<or>
         (192 \<le> (of_char c :: nat) \<and> (of_char c :: nat) \<le> 222 \<and> (of_char c :: nat) \<noteq> 215)
      then of_char c + 32 else of_char c)"
  by (auto simp add: lower_char_def Let_def)

lemma lower_char_is_underscore: "lower_char c = CHR ''_'' \<longleftrightarrow> c = CHR ''_''"
proof
  assume "lower_char c = CHR ''_''"
  then have "(of_char (lower_char c) :: nat) = 95"
    by simp
  then have "(of_char c :: nat) = 95"
    by (simp add: of_char_lower_char split: if_splits)
  then have "(of_char c :: nat) = of_char (CHR ''_'')"
    by simp
  then show "c = CHR ''_''"
    by (simp only: of_char_eq_iff)
next
  assume "c = CHR ''_''"
  then show "lower_char c = CHR ''_''"
    by (simp add: lower_char_def)
qed

lemma isspace_lower_char: "isspace (lower_char c) \<longleftrightarrow> isspace c"
  unfolding isspace_def Let_def of_char_lower_char by auto

lemma sub_space_runs_id: "\<forall>c\<in>set xs. \<not> isspace c \<Longrightarrow> sub_space_runs xs = xs"
  by (induction xs) auto

text \<open>
  Claim C7, as amended: on a name of ASCII characters \<^const>\<open>normalize_name\<close> trims the
  surrounding whitespace, lower-cases every character and replaces every underscore by
  a hyphen, character by character. It leaves dots and hyphens as they are and collapses no run. The variant
  of the ETL module then replaces each interior run of whitespace by one hyphen, and
  agrees with \<^const>\<open>normalize_name\<close> on a name with no interior whitespace.
\<close>

theorem normalize_name_pointwise:
  assumes "\<forall>c\<in>set n. (of_char c :: nat) < 128"
  shows "normalize_name n =
     map (\<lambda>c. if c = CHR ''_'' then CHR ''-'' else lower_char c) (strip n) \<and>
   normalize_name_etl n = sub_space_runs (normalize_name n) \<and>
   ((\<forall>c\<in>set (strip n). \<not> isspace c) \<longrightarrow> normalize_name_etl n = normalize_name n)"
proof -
  have pw: "normalize_name n =
     map (\<lambda>c. if c = CHR ''_'' then CHR ''-'' else lower_char c) (strip n)"
    by (simp add: normalize_name_def replace_char_def lower_def lower_char_is_underscore)
  have etl: "normalize_name_etl n = sub_space_runs (normalize_name n)"
    by (simp add: normalize_name_etl_def normalize_name_def)
  have "normalize_name_etl n = normalize_name n" if "\<forall>c\<in>set (strip n). \<not> isspace c"
  proof -
    from that have "\<forall>c\<in>set (normalize_name n). \<not> isspace c"
      unfolding pw by (auto simp: isspace_lower_char) (simp add: isspace_def)
    then show ?thesis
      unfolding etl by (rule sub_space_runs_id)
  qed
  with pw etl show ?thesis by blast
qed

text \<open>
  Witness for C7: a name with surrounding blanks, capitals and an underscore.
\<close>

theorem normalize_name_pointwise_witness:
  "normalize_name ''  Foo_Bar '' = ''foo-bar'' \<and>
   normalize_name_etl ''  Foo_Bar '' = normalize_name ''  Foo_Bar ''"
proof -
  have a: "\<forall>c\<in>set ''  Foo_Bar ''. (of_char c :: nat) < 128"
    by simp
  have h: "\<forall>c\<in>set (strip ''  Foo_Bar ''). \<not> isspace c"
    by code_simp
  have v: "normalize_name ''  Foo_Bar '' = ''foo-bar''"
    by code_simp
  from normalize_name_pointwise [OF a] h
  have e: "normalize_name_etl ''  Foo_Bar '' = normalize_name ''  Foo_Bar ''"
    by blast
  from v e show ?thesis
    by (rule conjI)
qed

text \<open>
  Claim C7 as stated fails: on \<^verbatim>\<open>My__pkg.Name\<close> both functions keep the dot and both
  hyphens of the run, where the normalization of the specification gives
  \<^verbatim>\<open>my-pkg-name\<close>.
\<close>

theorem normalize_name_keeps_dots_and_runs:
  "normalize_name ''My__pkg.Name'' = ''my--pkg.name'' \<and>
   normalize_name_etl ''My__pkg.Name'' = ''my--pkg.name'' \<and>
   normalize_name_spec ''My__pkg.Name'' = ''my-pkg-name''"
  by code_simp

section \<open>Provenance\<close>

lemma classify_cases:
  "classify pl n cand =
     (if \<exists>sel. map_of pl n = Some sel \<and> source sel = Existing \<and> version sel = cand then Existing
      else if map_of pl n = None then New else Upgrade)"
  by (auto simp: classify_def split: option.splits)

lemma length_update_le: "length (AList.update k v al) \<le> Suc (length al)"
  by (induction al) auto

text \<open>
  Claim C3, as amended: when the loop of \<^verbatim>\<open>dfs\<close> tries candidate \<open>cand\<close> for \<open>n\<close>, the
  plan it hands to the recursive call is the plan \<open>pl\<close> that entered the step with
  \<open>n\<close> reassigned to \<open>cand\<close>, and the provenance it records is computed from \<open>pl\<close>:
  \<open>Existing\<close> exactly when \<open>pl\<close> holds \<open>n\<close> at this version with provenance \<open>Existing\<close>,
  \<open>New\<close> exactly when \<open>n\<close> is absent from \<open>pl\<close>, and \<open>Upgrade\<close> in every other case (\<open>n\<close>
  present at another version, or at this version with a provenance other than
  \<open>Existing\<close>). Where the candidate has no dependencies and the queue is empty, this is
  the plan that the search returns.
\<close>

theorem for_cands_provenance:
  fixes L :: "('v::linorder, 's) packaging"
  shows
  "for_cands L kg fuel n rest pl vis (cand # cands) =
     (case dep_targets L n (get_requires kg n cand) of
        Inl e \<Rightarrow> Some (Inl e)
      | Inr ts \<Rightarrow>
          (case dfs L kg fuel (rest @ ts)
                  (AList.update n
                     \<lparr>name = n, version = cand,
                      source =
                        (if \<exists>sel. map_of pl n = Some sel \<and> source sel = Existing \<and>
                                  version sel = cand then Existing
                         else if map_of pl n = None then New else Upgrade)\<rparr> pl) vis of
             None \<Rightarrow> None
           | Some (Inl e) \<Rightarrow> Some (Inl e)
           | Some (Inr r) \<Rightarrow>
               if fst r then Some (Inr r) else for_cands L kg fuel n rest pl vis cands)) \<and>
   (dep_targets L n (get_requires kg n cand) = Inr [] \<and> length pl < MAX_PACKAGES \<longrightarrow>
      for_cands L kg (Suc fuel) n [] pl vis (cand # cands) =
        Some (Inr (True,
          AList.update n
            \<lparr>name = n, version = cand,
             source =
               (if \<exists>sel. map_of pl n = Some sel \<and> source sel = Existing \<and>
                         version sel = cand then Existing
                else if map_of pl n = None then New else Upgrade)\<rparr> pl,
          [])))"
proof -
  let ?src = "if \<exists>sel. map_of pl n = Some sel \<and> source sel = Existing \<and>
                     version sel = cand then Existing
              else if map_of pl n = None then New else Upgrade"
  let ?pl = "AList.update n \<lparr>name = n, version = cand, source = ?src\<rparr> pl"
  have src: "classify pl n cand = ?src"
    by (rule classify_cases)
  have step: "for_cands L kg fuel' n rest' pl vis (cand # cands) =
     (case dep_targets L n (get_requires kg n cand) of
        Inl e \<Rightarrow> Some (Inl e)
      | Inr ts \<Rightarrow>
          (case dfs L kg fuel' (rest' @ ts) ?pl vis of
             None \<Rightarrow> None
           | Some (Inl e) \<Rightarrow> Some (Inl e)
           | Some (Inr r) \<Rightarrow>
               if fst r then Some (Inr r) else for_cands L kg fuel' n rest' pl vis cands))"
    for fuel' rest'
    unfolding for_cands_Cons src ..
  have fin: "for_cands L kg (Suc fuel) n [] pl vis (cand # cands) = Some (Inr (True, ?pl, []))"
    if deps: "dep_targets L n (get_requires kg n cand) = Inr []" and len: "length pl < MAX_PACKAGES"
  proof -
    have "length ?pl \<le> Suc (length pl)"
      by (rule length_update_le)
    with len have "\<not> MAX_PACKAGES < length ?pl"
      by simp
    then have "dfs L kg (Suc fuel) [] ?pl vis = Some (Inr (True, ?pl, []))"
      by (simp add: dfs_Suc dfs_step_def)
    with deps show ?thesis
      unfolding step [of "Suc fuel" "[]"] by simp
  qed
  from step [of fuel rest] fin show ?thesis
    by blast
qed

text \<open>
  Witness for C3: with \<^verbatim>\<open>numpy\<close> 1.20.0 installed, the candidate 1.20.0 is recorded as
  \<open>Existing\<close> and the candidate 1.24.0 as \<open>Upgrade\<close>; on an empty plan 1.24.0 is \<open>New\<close>.
\<close>

theorem for_cands_provenance_witness:
  "for_cands pep440 kg_numpy 1 ''numpy'' []
      [(''numpy'', \<lparr>name = ''numpy'', version = ''1.20.0'', source = Existing\<rparr>)] {}
      [''1.20.0'', ''1.24.0''] =
     Some (Inr (True,
       [(''numpy'', \<lparr>name = ''numpy'', version = ''1.20.0'', source = Existing\<rparr>)], [])) \<and>
   for_cands pep440 kg_numpy 1 ''numpy'' []
      [(''numpy'', \<lparr>name = ''numpy'', version = ''1.20.0'', source = Existing\<rparr>)] {}
      [''1.24.0''] =
     Some (Inr (True,
       [(''numpy'', \<lparr>name = ''numpy'', version = ''1.24.0'', source = Upgrade\<rparr>)], [])) \<and>
   for_cands pep440 kg_numpy 1 ''numpy'' [] [] {} [''1.24.0''] =
     Some (Inr (True,
       [(''numpy'', \<lparr>name = ''numpy'', version = ''1.24.0'', source = New\<rparr>)], []))"
proof -
  let ?pl = "[(''numpy'', \<lparr>name = ''numpy'', version = ''1.20.0'', source = Existing\<rparr>)]"
  have deps: "dep_targets pep440 ''numpy'' (get_requires kg_numpy ''numpy'' ''1.20.0'') = Inr []"
    "dep_targets pep440 ''numpy'' (get_requires kg_numpy ''numpy'' ''1.24.0'') = Inr []"
    by code_simp+
  have len: "length ?pl < MAX_PACKAGES" "length ([] :: PackageSelection dict) < MAX_PACKAGES"
    by (simp_all add: MAX_PACKAGES_def)
  from for_cands_provenance [of pep440 kg_numpy 0 "''numpy''" "[]" ?pl "{}" "''1.20.0''" "[''1.24.0'']"]
    for_cands_provenance [of pep440 kg_numpy 0 "''numpy''" "[]" ?pl "{}" "''1.24.0''" "[]"]
    for_cands_provenance [of pep440 kg_numpy 0 "''numpy''" "[]" "[]" "{}" "''1.24.0''" "[]"]
    deps len
  show ?thesis by simp
qed

text \<open>
  Claim C3 as stated fails: a name already assigned exactly the candidate version, with
  provenance \<open>New\<close>, is classified \<open>Upgrade\<close> and not \<open>Existing\<close>. The search reaches this
  state: the targets \<^verbatim>\<open>numpy\<close> and \<^verbatim>\<open>numpy>=1.0\<close> on an empty environment assign 1.25.0
  twice.
\<close>

theorem classify_same_version_not_existing:
  "classify [(''numpy'', \<lparr>name = ''numpy'', version = ''1.25.0'', source = New\<rparr>)]
      ''numpy'' ''1.25.0'' = Upgrade \<and>
   resolve_plan pep440 kg_numpy 5 []
      [(''numpy'', [], ''target''), (''numpy'', ''>=1.0'', ''target'')] =
     Some (Inr \<lparr>ok = True,
                 plan = [(''numpy'', \<lparr>name = ''numpy'', version = ''1.25.0'', source = Upgrade\<rparr>)],
                 conflicts = []\<rparr>)"
  by code_simp

section \<open>Runs of the resolver that break the specification\<close>

text \<open>
  Claim C1 (every target processed by a successful search is satisfied by the returned
  plan) fails on the code. With \<open>x\<close> requiring \<^verbatim>\<open>a>=2.0\<close> and \<open>y\<close> requiring \<^verbatim>\<open>a<2.0\<close>,
  installing \<open>x\<close> and \<open>y\<close> succeeds with \<open>a\<close> at 1.0: the target \<^verbatim>\<open>a<2.0\<close> reassigns
  \<open>a\<close> and nothing checks the earlier target \<^verbatim>\<open>a>=2.0\<close> again.
\<close>

theorem resolve_plan_violates_earlier_target:
  "resolve_plan pep440 kg_conflict 5 [] [(''x'', [], ''target''), (''y'', [], ''target'')] =
     Some (Inr \<lparr>ok = True,
                 plan = [(''x'', \<lparr>name = ''x'', version = ''1.0'', source = New\<rparr>),
                         (''y'', \<lparr>name = ''y'', version = ''1.0'', source = New\<rparr>),
                         (''a'', \<lparr>name = ''a'', version = ''1.0'', source = Upgrade\<rparr>)],
                 conflicts = []\<rparr>) \<and>
   dep_targets pep440 ''x'' (get_requires kg_conflict ''x'' ''1.0'') =
     Inr [(''a'', [''>=2.0''], ''dep-of-x'')] \<and>
   contains pep440 [''>=2.0''] ''1.0'' = Some False"
  by code_simp

text \<open>
  Claim C2 (check-only mode returns the environment's own version for every package
  but the candidate) fails on the code. With \<^verbatim>\<open>numpy\<close> 1.20.0 installed and
  \<^verbatim>\<open>pandas\<close> 2.0.0 requiring \<^verbatim>\<open>numpy>=1.24.0\<close>, the check of \<^verbatim>\<open>pandas==2.0.0\<close>
  succeeds with \<^verbatim>\<open>numpy\<close> upgraded to 1.24.0.
\<close>

theorem task1_returns_upgrade:
  "task1_check_single pep440 kg_numpy 5 [(''numpy'', ''1.20.0'')] [] ''pandas'' ''==2.0.0'' =
     Some (Inr \<lparr>ok = True,
                 plan = [(''numpy'', \<lparr>name = ''numpy'', version = ''1.24.0'', source = Upgrade\<rparr>),
                         (''pandas'', \<lparr>name = ''pandas'', version = ''2.0.0'', source = New\<rparr>)],
                 conflicts = []\<rparr>)"
  by code_simp

text \<open>
  Claim C4 (no failure inside the search leaves it as an exception) fails on the code.
  \<^verbatim>\<open>dfs\<close> calls \<^verbatim>\<open>spec.contains\<close> outside any \<^verbatim>\<open>try\<close>, so a malformed version among
  the versions of a package with a non-empty specifier raises \<^verbatim>\<open>InvalidVersion\<close> out of
  \<^verbatim>\<open>resolve_plan\<close>; a malformed specifier string raises \<^verbatim>\<open>InvalidSpecifier\<close>.
\<close>

theorem dfs_raises_on_malformed_version:
  "resolve_plan pep440 kg_malformed 5 [] [(''pkg'', ''>=1.0'', ''target'')] =
     Some (Inl InvalidVersion) \<and>
   resolve_plan pep440 kg_numpy 5 [] [(''numpy'', ''>=one'', ''target'')] =
     Some (Inl InvalidSpecifier)"
  by code_simp

end
